theory Spec2Isabelle
  imports Main "HOL-Library.Multiset"
begin

section \<open>Echo: the command dispatcher and the Chronicle (src/bot.py)\<close>

text \<open>
  The bot receives chat messages, routes each one by its prefix (\<open>on_message\<close>) and,
  for \<^verbatim>\<open>!log\<close> and \<^verbatim>\<open>!recall\<close>, writes to and reads from the SQLite table
  \<^verbatim>\<open>logs\<close> of \<^verbatim>\<open>chronicle.db\<close>.

  Modelling decisions, each visible in the definitions below:
  \<^item> A Python \<^verbatim>\<open>str\<close> is a list of code points. A \<open>char\<close> stands for one code point in
    the range U+0000 .. U+00FF, so the model covers the messages written in that range.
    The emoji of two fixed replies lie outside it and are named constants.
  \<^item> The database file is a value of type \<open>database\<close>; a connection carries the file
    and the open transaction. Every handler takes the file and returns the file it leaves
    behind, together with the list of replies it sent on the channel, in order.
  \<^item> What the environment decides is a field of \<open>env\<close>: the bot's identity, the clock,
    the SQLite call that fails (if any), and the answers of the libraries and services
    the handlers call.
  \<^item> An exception is the left summand of a sum type.
  \<^item> \<^verbatim>\<open>channel.send\<close> can raise (the gateway refuses a reply that is too long, the
    bot may not write to the channel, the connection drops): the environment decides for
    each reply. The replies a handler returns are the ones delivered.
\<close>

subsection \<open>Python string operations\<close>

datatype error = OperationalError | ValueError

text \<open>\<^verbatim>\<open>str.isspace\<close> per character, on U+0000 .. U+00FF: TAB, LF, VT, FF, CR, the
  separators U+001C .. U+001F, SPACE, NEL (U+0085) and NBSP (U+00A0).\<close>

definition isspace :: "char \<Rightarrow> bool" where
  "isspace c =
     (let n = (of_char c :: nat)
      in (9 \<le> n \<and> n \<le> 13) \<or> (28 \<le> n \<and> n \<le> 32) \<or> n = 133 \<or> n = 160)"

text \<open>The characters \<^verbatim>\<open>int()\<close> reads as decimal digits, on U+0000 .. U+00FF: 0 to 9.\<close>

definition isdecimal_char :: "char \<Rightarrow> bool" where
  "isdecimal_char c = (let n = (of_char c :: nat) in 48 \<le> n \<and> n \<le> 57)"

text \<open>\<^verbatim>\<open>str.isdigit\<close> per character, on U+0000 .. U+00FF: the decimal digits and the
  superscripts U+00B2, U+00B3 and U+00B9, which have the Unicode property
  \<^verbatim>\<open>Numeric_Type=Digit\<close>.\<close>

definition isdigit_char :: "char \<Rightarrow> bool" where
  "isdigit_char c =
     (let n = (of_char c :: nat)
      in (48 \<le> n \<and> n \<le> 57) \<or> n = 178 \<or> n = 179 \<or> n = 185)"

text \<open>\<^verbatim>\<open>s.isdigit()\<close>: at least one character, and every character a digit.\<close>

definition isdigit :: "string \<Rightarrow> bool" where
  "isdigit s = (s \<noteq> [] \<and> list_all isdigit_char s)"

text \<open>\<^verbatim>\<open>int(s)\<close> on a string that passed \<^verbatim>\<open>isdigit()\<close>, the only call the source makes:
  the value in base 10 when every character is a decimal digit, \<^verbatim>\<open>ValueError\<close>
  otherwise. (A chat message is shorter than the 4300 digits at which CPython refuses a
  conversion.)\<close>

definition digit_value :: "char \<Rightarrow> int" where
  "digit_value c = int ((of_char c :: nat) - 48)"

definition py_int :: "string \<Rightarrow> error + int" where
  "py_int s =
     (if s \<noteq> [] \<and> list_all isdecimal_char s
      then Inr (foldl (\<lambda>a c. 10 * a + digit_value c) 0 s)
      else Inl ValueError)"

text \<open>\<^verbatim>\<open>s.split()\<close>: the maximal runs of non-whitespace characters, in order. The first
  argument of \<open>split_from\<close> is the run read so far.\<close>

fun split_from :: "string \<Rightarrow> string \<Rightarrow> string list" where
  "split_from w [] = (if w = [] then [] else [w])"
| "split_from w (c # cs) =
     (if isspace c then (if w = [] then split_from [] cs else w # split_from [] cs)
      else split_from (w @ [c]) cs)"

definition split :: "string \<Rightarrow> string list" where
  "split s = split_from [] s"

text \<open>\<^verbatim>\<open>s.strip()\<close>: whitespace removed at both ends.\<close>

definition strip :: "string \<Rightarrow> string" where
  "strip s = rev (dropWhile isspace (rev (dropWhile isspace s)))"

text \<open>\<^verbatim>\<open>s.startswith(p)\<close>.\<close>

definition startswith :: "string \<Rightarrow> string \<Rightarrow> bool" where
  "startswith s p = (take (length p) s = p)"

text \<open>\<^verbatim>\<open>str(n)\<close> for a length.\<close>

function str_nat :: "nat \<Rightarrow> string" where
  "str_nat n =
     (if n < 10 then [char_of (48 + n)]
      else str_nat (n div 10) @ [char_of (48 + n mod 10)])"
  by pat_completeness auto
termination
  by (relation "measure id") auto

declare str_nat.simps [simp del]

subsection \<open>The table \<^verbatim>\<open>logs\<close> and SQLite\<close>

text \<open>
  \<^verbatim>\<open>CREATE TABLE IF NOT EXISTS logs (id INTEGER PRIMARY KEY AUTOINCREMENT,
      timestamp TEXT NOT NULL, user TEXT NOT NULL, message TEXT NOT NULL)\<close>

  A database is the list of the table's rows, in the order they were stored, and the
  counter SQLite keeps for an \<^verbatim>\<open>AUTOINCREMENT\<close> column (table \<^verbatim>\<open>sqlite_sequence\<close>): the
  largest id the table has ever held.
\<close>

record log_row =
  row_id :: int
  row_timestamp :: string
  row_user :: string
  row_message :: string

record database =
  logs :: "log_row list"
  seq :: int

text \<open>\<open>initialize_database\<close>: \<open>None\<close> is a file without the table, which the statement
  creates empty; an existing table is left as it is.\<close>

definition initialize_database :: "database option \<Rightarrow> database" where
  "initialize_database st =
     (case st of None \<Rightarrow> \<lparr>logs = [], seq = 0\<rparr> | Some db \<Rightarrow> db)"

text \<open>The SQLite call that raises while one event is handled, if any.\<close>

datatype fault = NoFault | ConnectFails | ExecuteFails | CommitFails

text \<open>A connection: the file, and the state the open transaction has built (Python's
  \<^verbatim>\<open>sqlite3\<close> opens a transaction before an \<^verbatim>\<open>INSERT\<close>). Only \<open>commit\<close> writes
  the transaction to the file; a connection closed or dropped with an open transaction
  leaves the file as it was.\<close>

record connection =
  db_file :: database
  txn :: "database option"

definition connect :: "fault \<Rightarrow> database \<Rightarrow> error + connection" where
  "connect f db =
     (if f = ConnectFails then Inl OperationalError else Inr \<lparr>db_file = db, txn = None\<rparr>)"

definition view :: "connection \<Rightarrow> database" where
  "view c = (case txn c of None \<Rightarrow> db_file c | Some d \<Rightarrow> d)"

definition commit :: "fault \<Rightarrow> connection \<Rightarrow> error + connection" where
  "commit f c =
     (if f = CommitFails then Inl OperationalError else Inr \<lparr>db_file = view c, txn = None\<rparr>)"

definition close :: "connection \<Rightarrow> database" where
  "close c = db_file c"

definition max_id :: "log_row list \<Rightarrow> int" where
  "max_id rows = fold (\<lambda>r a. max (row_id r) a) rows 0"

text \<open>
  \<^verbatim>\<open>INSERT INTO logs (timestamp, user, message) VALUES (?, ?, ?)\<close>

  The new id is one more than the largest id the table has ever held; SQLite refuses
  the insert (\<^verbatim>\<open>SQLITE_FULL\<close>) once that is the largest 64-bit integer.
\<close>

definition execute_insert ::
    "fault \<Rightarrow> connection \<Rightarrow> string \<times> string \<times> string \<Rightarrow> error + connection" where
  "execute_insert f c vals =
     (if f = ExecuteFails then Inl OperationalError
      else
        (let d = view c; largest = max (seq d) (max_id (logs d))
         in if 9223372036854775807 \<le> largest then Inl OperationalError
            else
              Inr (c\<lparr>txn := Some
                \<lparr>logs = logs d @
                   [\<lparr>row_id = largest + 1, row_timestamp = fst vals,
                     row_user = fst (snd vals), row_message = snd (snd vals)\<rparr>],
                 seq = largest + 1\<rparr>\<rparr>)))"

text \<open>\<^verbatim>\<open>LIMIT n\<close>: the first \<open>n\<close> rows; a negative \<open>n\<close> is no limit.\<close>

definition sql_limit :: "int \<Rightarrow> 'a list \<Rightarrow> 'a list" where
  "sql_limit n xs = (if n < 0 then xs else take (nat n) xs)"

text \<open>
  \<^verbatim>\<open>SELECT timestamp, user, message FROM logs ORDER BY id DESC LIMIT ?\<close>
\<close>

definition select_recent :: "int \<Rightarrow> log_row list \<Rightarrow> (string \<times> string \<times> string) list" where
  "select_recent limit rows =
     map (\<lambda>r. (row_timestamp r, row_user r, row_message r))
       (sql_limit limit (rev (sort_key row_id rows)))"

definition execute_select ::
    "fault \<Rightarrow> connection \<Rightarrow> int \<Rightarrow> error + (string \<times> string \<times> string) list" where
  "execute_select f c limit =
     (if f = ExecuteFails then Inl OperationalError
      else Inr (select_recent limit (logs (view c))))"

subsection \<open>Messages, replies and the environment\<close>

text \<open>A Discord user: two users are equal when their ids are; \<open>user_name\<close> is
  \<^verbatim>\<open>author.name\<close> and \<open>user_str\<close> is \<^verbatim>\<open>str(author)\<close>.\<close>

record discord_user =
  user_id :: nat
  user_name :: string
  user_str :: string

record message =
  author :: discord_user
  content :: string

datatype colour = Purple | Blue | Green

record embed =
  embed_title :: string
  embed_description :: string
  embed_color :: colour
  embed_fields :: "(string \<times> string \<times> bool) list"
  embed_footer :: "string option"

datatype response = Text string | Embed embed

text \<open>
  \<^item> \<open>client_user\<close>: \<^verbatim>\<open>client.user\<close>, the bot itself;
  \<^item> \<open>latency_ms\<close>: \<^verbatim>\<open>client.latency * 1000\<close> printed with two decimals;
  \<^item> \<open>utcnow_isoformat\<close>: \<^verbatim>\<open>datetime.utcnow().isoformat()\<close>;
  \<^item> \<open>db_fault\<close>: the SQLite call that raises during this event;
  \<^item> \<open>strftime_utc\<close>: \<^verbatim>\<open>datetime.fromisoformat(t).strftime('%Y-%m-%d %H:%M:%S UTC')\<close>,
    which raises \<^verbatim>\<open>ValueError\<close> on a malformed \<open>t\<close>;
  \<^item> \<open>scrape_title\<close>: the page fetched and parsed for a URL: the text of the error
    raised, or the page title as printed;
  \<^item> \<open>oracle_time\<close>: the time service's answer for a timezone: the text of the error
    raised, or the fields \<^verbatim>\<open>timezone\<close>, \<^verbatim>\<open>current_datetime\<close> and
    \<^verbatim>\<open>current_timestamp_utc\<close>;
  \<^item> \<open>send_error\<close>: for a reply, the text of the exception \<^verbatim>\<open>channel.send\<close> raises
    when given it, or \<open>None\<close> when the reply is delivered.
\<close>

record env =
  client_user :: discord_user
  latency_ms :: string
  utcnow_isoformat :: string
  db_fault :: fault
  strftime_utc :: "string \<Rightarrow> error + string"
  scrape_title :: "string \<Rightarrow> string + string"
  oracle_time :: "string \<Rightarrow> string + string \<times> string \<times> string"
  send_error :: "response \<Rightarrow> string option"

text \<open>U+2705 and U+274C, the marks that open two replies, as their UTF-8 bytes.\<close>

definition check_mark :: string where
  "check_mark = [CHR 0xE2, CHR 0x9C, CHR 0x85]"

definition cross_mark :: string where
  "cross_mark = [CHR 0xE2, CHR 0x9D, CHR 0x8C]"

subsection \<open>The Chronicle's two operations\<close>

text \<open>A connection that goes out of scope when an exception unwinds the handler: its
  open transaction is rolled back.\<close>

definition dropped :: "connection \<Rightarrow> database" where
  "dropped c = db_file c"

text \<open>The write, lines 152 to 159 of \<open>handle_log_command\<close>: connect, insert, commit,
  close. It returns the file it leaves and what the caller sees: the exception raised,
  or a normal return.\<close>

definition chronicle_append ::
    "fault \<Rightarrow> database \<Rightarrow> string \<times> string \<times> string \<Rightarrow> database \<times> (error + unit)" where
  "chronicle_append f db vals =
     (case connect f db of
        Inl e \<Rightarrow> (db, Inl e)
      | Inr c0 \<Rightarrow>
          (case execute_insert f c0 vals of
             Inl e \<Rightarrow> (dropped c0, Inl e)
           | Inr c1 \<Rightarrow>
               (case commit f c1 of
                  Inl e \<Rightarrow> (dropped c1, Inl e)
                | Inr c2 \<Rightarrow> (close c2, Inr ()))))"

text \<open>The read, lines 109 to 115 of \<open>handle_recall_command\<close>: connect, select, fetch,
  close. The rows come most recent first.\<close>

definition chronicle_recent ::
    "fault \<Rightarrow> database \<Rightarrow> int \<Rightarrow> database \<times> (error + (string \<times> string \<times> string) list)" where
  "chronicle_recent f db limit =
     (case connect f db of
        Inl e \<Rightarrow> (db, Inl e)
      | Inr c \<Rightarrow>
          (case execute_select f c limit of
             Inl e \<Rightarrow> (dropped c, Inl e)
           | Inr rows \<Rightarrow> (close c, Inr rows)))"

subsection \<open>The handlers\<close>

text \<open>Lines 102 to 107: the limit of a recall, 5 unless the second word passes
  \<^verbatim>\<open>isdigit()\<close>, and at most 20.\<close>

definition recall_limit :: "string \<Rightarrow> error + int" where
  "recall_limit text =
     (let parts = split text
      in if length parts > 1 \<and> isdigit (parts ! 1)
         then (case py_int (parts ! 1) of
                 Inl e \<Rightarrow> Inl e
               | Inr limit \<Rightarrow> Inr (min limit 20))
         else Inr (min 5 20))"

text \<open>Lines 128 to 136: one field per row, in the order given.\<close>

fun recall_fields ::
    "(string \<Rightarrow> error + string) \<Rightarrow> (string \<times> string \<times> string) list
      \<Rightarrow> error + (string \<times> string \<times> bool) list" where
  "recall_fields fmt [] = Inr []"
| "recall_fields fmt ((timestamp, user, log_message) # rows) =
     (case fmt timestamp of
        Inl e \<Rightarrow> Inl e
      | Inr formatted_time \<Rightarrow>
          (case recall_fields fmt rows of
             Inl e \<Rightarrow> Inl e
           | Inr fs \<Rightarrow>
               Inr ((''Logged by `'' @ user @ ''` at `'' @ formatted_time @ ''`'',
                     ''```'' @ log_message @ ''```'', False) # fs)))"

text \<open>\<^verbatim>\<open>await message.channel.send(r)\<close> where an exception of the send leaves the
  handler (a send outside a \<^verbatim>\<open>try\<close>, or inside an \<^verbatim>\<open>except\<close> branch): the reply is
  delivered, or the send raises and nothing more is sent for the event.\<close>

definition delivered :: "env \<Rightarrow> response \<Rightarrow> response list" where
  "delivered env r = (case send_error env r of None \<Rightarrow> [r] | Some e \<Rightarrow> [])"

definition recall_failed :: response where
  "recall_failed =
     Text (cross_mark @ '' Error: Could not recall entries from the Chronicle.'')"

text \<open>Lines 121 to 125 and 132 to 136: the reply that lists \<open>k\<close> rows.\<close>

definition recall_embed :: "nat \<Rightarrow> (string \<times> string \<times> bool) list \<Rightarrow> response" where
  "recall_embed k fs =
     Embed
       \<lparr>embed_title = ''Chronicle Recall'',
        embed_description = ''Displaying the last '' @ str_nat k @ '' entries.'',
        embed_color = Purple,
        embed_fields = fs,
        embed_footer = None\<rparr>"

text \<open>\<open>handle_recall_command\<close>: the whole body is inside the \<^verbatim>\<open>try\<close>, so whatever
  raises in it, a send included, leads to the \<^verbatim>\<open>except\<close> branch, which sends
  \<open>recall_failed\<close>.\<close>

definition handle_recall_command ::
    "env \<Rightarrow> message \<Rightarrow> database \<Rightarrow> database \<times> response list" where
  "handle_recall_command env m db =
     (case recall_limit (content m) of
        Inl e \<Rightarrow> (db, delivered env recall_failed)
      | Inr limit \<Rightarrow>
          (case chronicle_recent (db_fault env) db limit of
             (db', Inl e) \<Rightarrow> (db', delivered env recall_failed)
           | (db', Inr rows) \<Rightarrow>
               if rows = []
               then
                 (case send_error env (Text ''The Chronicle is empty.'') of
                    None \<Rightarrow> (db', [Text ''The Chronicle is empty.''])
                  | Some e \<Rightarrow> (db', delivered env recall_failed))
               else
                 (case recall_fields (strftime_utc env) (rev rows) of
                    Inl e \<Rightarrow> (db', delivered env recall_failed)
                  | Inr fs \<Rightarrow>
                      (case send_error env (recall_embed (length rows) fs) of
                         None \<Rightarrow> (db', [recall_embed (length rows) fs])
                       | Some e \<Rightarrow> (db', delivered env recall_failed)))))"

definition log_usage :: response where
  "log_usage = Text ''Error: No message provided. Usage: `!log <your message>`''"

definition log_recorded :: response where
  "log_recorded = Text (check_mark @ '' Entry recorded in the Chronicle.'')"

definition log_failed :: response where
  "log_failed = Text (cross_mark @ '' Error: Could not record entry in the Chronicle.'')"

text \<open>\<open>handle_log_command\<close>: the usage reply is sent before the \<^verbatim>\<open>try\<close>. The write and
  the send of \<open>log_recorded\<close> are inside it: when that send raises, after the commit, the
  \<^verbatim>\<open>except\<close> branch sends \<open>log_failed\<close> and the row stays written.\<close>

definition handle_log_command ::
    "env \<Rightarrow> message \<Rightarrow> database \<Rightarrow> database \<times> response list" where
  "handle_log_command env m db =
     (let log_content = strip (drop 5 (content m))
      in if log_content = [] then (db, delivered env log_usage)
         else
           (case chronicle_append (db_fault env) db
                   (utcnow_isoformat env, user_str (author m), log_content) of
              (db', Inl e) \<Rightarrow> (db', delivered env log_failed)
            | (db', Inr u) \<Rightarrow>
                (case send_error env log_recorded of
                   None \<Rightarrow> (db', [log_recorded])
                 | Some e \<Rightarrow> (db', delivered env log_failed))))"

definition scrape_error :: "string \<Rightarrow> response" where
  "scrape_error e = Text (''An error occurred during the scrape operation: `'' @ e @ ''`'')"

definition scrape_report :: "string \<Rightarrow> string \<Rightarrow> message \<Rightarrow> response" where
  "scrape_report url page_title m =
     Embed
       \<lparr>embed_title = ''Reconnaissance Report'',
        embed_description = ''Target: `'' @ url @ ''`'',
        embed_color = Blue,
        embed_fields = [(''Page Title'', ''```'' @ page_title @ ''```'', False)],
        embed_footer = Some (''Report generated by Echo for '' @ user_name (author m))\<rparr>"

text \<open>\<open>handle_scrape_command\<close>: the usage reply is sent before the \<^verbatim>\<open>try\<close>; the
  progress notice, the fetch and the report are inside it, and the \<^verbatim>\<open>except\<close>
  branch sends the text of whatever was raised.\<close>

definition handle_scrape_command :: "env \<Rightarrow> message \<Rightarrow> response list" where
  "handle_scrape_command env m =
     (let parts = split (content m)
      in if length parts < 2
         then delivered env (Text ''Error: No URL provided. Usage: `!scrape <URL>`'')
         else
           (let url = parts ! 1;
                notice = Text (''Beginning reconnaissance on `'' @ url @ ''`...'')
            in case send_error env notice of
                 Some e \<Rightarrow> delivered env (scrape_error e)
               | None \<Rightarrow>
                   notice #
                   (case scrape_title env url of
                      Inl e \<Rightarrow> delivered env (scrape_error e)
                    | Inr page_title \<Rightarrow>
                        (case send_error env (scrape_report url page_title m) of
                           None \<Rightarrow> [scrape_report url page_title m]
                         | Some e \<Rightarrow> delivered env (scrape_error e)))))"

definition time_error :: "string \<Rightarrow> response" where
  "time_error e = Text (''An error occurred during the API query: `'' @ e @ ''`'')"

definition time_report :: "string \<times> string \<times> string \<Rightarrow> message \<Rightarrow> response" where
  "time_report data m =
     Embed
       \<lparr>embed_title = ''Oracle Time Service'',
        embed_description = ''Time information for `'' @ fst data @ ''`'',
        embed_color = Green,
        embed_fields =
          [(''Current Date & Time'', ''`'' @ fst (snd data) @ ''`'', False),
           (''UTC Timestamp'', ''`'' @ snd (snd data) @ ''`'', False)],
        embed_footer = Some (''Query performed by Echo for '' @ user_name (author m))\<rparr>"

text \<open>\<open>handle_time_command\<close>: as the scrape handler, with the time service.\<close>

definition handle_time_command :: "env \<Rightarrow> message \<Rightarrow> response list" where
  "handle_time_command env m =
     (let parts = split (content m)
      in if length parts < 2
         then delivered env (Text ''Error: No timezone provided. Usage: `!time <Timezone>`'')
         else
           (let timezone = parts ! 1;
                notice = Text (''Querying the Oracle for timezone `'' @ timezone @ ''`...'')
            in case send_error env notice of
                 Some e \<Rightarrow> delivered env (time_error e)
               | None \<Rightarrow>
                   notice #
                   (case oracle_time env timezone of
                      Inl e \<Rightarrow> delivered env (time_error e)
                    | Inr data \<Rightarrow>
                        (case send_error env (time_report data m) of
                           None \<Rightarrow> [time_report data m]
                         | Some e \<Rightarrow> delivered env (time_error e)))))"

subsection \<open>The dispatcher\<close>

text \<open>\<open>on_message\<close>: the file the event leaves and the replies delivered for it, in
  order. An exception that leaves a handler ends the event (the library logs it).\<close>

definition on_message :: "env \<Rightarrow> message \<Rightarrow> database \<Rightarrow> database \<times> response list" where
  "on_message env m db =
     (if user_id (author m) = user_id (client_user env) then (db, [])
      else if startswith (content m) ''!ping''
        then (db, delivered env (Text (''Pong! System latency is '' @ latency_ms env @ ''ms.'')))
      else if startswith (content m) ''!scrape'' then (db, handle_scrape_command env m)
      else if startswith (content m) ''!time'' then (db, handle_time_command env m)
      else if startswith (content m) ''!log'' then handle_log_command env m db
      else if startswith (content m) ''!recall'' then handle_recall_command env m db
      else (db, []))"

text \<open>The bot's life: the events it handles, one after the other, each with the
  environment it meets. A reachable Chronicle is \<open>run evs (initialize_database None)\<close>.\<close>

fun run :: "(env \<times> message) list \<Rightarrow> database \<Rightarrow> database" where
  "run [] db = db"
| "run (ev # evs) db = run evs (fst (on_message (fst ev) (snd ev) db))"

text \<open>A batch of writes, each with the SQLite call that fails during it (if any): the
  file left, and what each write returned.\<close>

fun append_calls ::
    "(fault \<times> string \<times> string \<times> string) list \<Rightarrow> database
      \<Rightarrow> database \<times> (error + unit) list" where
  "append_calls [] db = (db, [])"
| "append_calls (call # calls) db =
     (case chronicle_append (fst call) db (snd call) of
        (db1, r) \<Rightarrow>
          (case append_calls calls db1 of (db2, rs) \<Rightarrow> (db2, r # rs)))"

subsection \<open>A sample environment\<close>

text \<open>The users, environment and Chronicle at which the theorems below are instantiated.\<close>

definition echo_bot :: discord_user where
  "echo_bot = \<lparr>user_id = 1, user_name = ''Echo'', user_str = ''Echo#0001''\<rparr>"

definition bob :: discord_user where
  "bob = \<lparr>user_id = 2, user_name = ''bob'', user_str = ''bob#0002''\<rparr>"

definition sample_env :: env where
  "sample_env =
     \<lparr>client_user = echo_bot,
      latency_ms = ''42.00'',
      utcnow_isoformat = ''2024-01-02T03:04:05.000006'',
      db_fault = NoFault,
      strftime_utc = (\<lambda>t. Inr (take 10 t @ '' '' @ take 8 (drop 11 t) @ '' UTC'')),
      scrape_title = (\<lambda>url. Inr ''Example Domain''),
      oracle_time = (\<lambda>tz. Inr (tz, ''2024-01-02 03:04:05'', ''1704164645'')),
      send_error = (\<lambda>r. None)\<rparr>"

definition one_entry :: database where
  "one_entry =
     \<lparr>logs = [\<lparr>row_id = 1, row_timestamp = ''2024-01-01T00:00:00'',
                row_user = ''bob#0002'', row_message = ''Server restarted''\<rparr>],
      seq = 1\<rparr>"

definition three_entries :: "(string \<times> string \<times> string) list" where
  "three_entries =
     [(''2024-01-01T00:00:00'', ''bob#0002'', ''one''),
      (''2024-01-01T00:00:01'', ''amy#0003'', ''two''),
      (''2024-01-01T00:00:02'', ''bob#0002'', ''three'')]"

text \<open>The rows of \<open>three_entries\<close>, stored out of order.\<close>

definition shuffled_rows :: "log_row list" where
  "shuffled_rows =
     [\<lparr>row_id = 2, row_timestamp = ''2024-01-01T00:00:01'',
       row_user = ''amy#0003'', row_message = ''two''\<rparr>,
      \<lparr>row_id = 3, row_timestamp = ''2024-01-01T00:00:02'',
       row_user = ''bob#0002'', row_message = ''three''\<rparr>,
      \<lparr>row_id = 1, row_timestamp = ''2024-01-01T00:00:00'',
       row_user = ''bob#0002'', row_message = ''one''\<rparr>]"

subsection \<open>Notions used in the statements\<close>

text \<open>The columns of a row that the read selects.\<close>

definition entry_of :: "log_row \<Rightarrow> string \<times> string \<times> string" where
  "entry_of r = (row_timestamp r, row_user r, row_message r)"

text \<open>The row an insert of \<open>vals\<close> adds to \<open>db\<close>.\<close>

definition next_row :: "database \<Rightarrow> string \<times> string \<times> string \<Rightarrow> log_row" where
  "next_row db vals =
     \<lparr>row_id = max (seq db) (max_id (logs db)) + 1, row_timestamp = fst vals,
      row_user = fst (snd vals), row_message = snd (snd vals)\<rparr>"

text \<open>The invariant of the table: the rows carry the ids 1, 2, 3, ... in the order they
  were stored, and the counter is the number of rows.\<close>

definition numbered :: "database \<Rightarrow> bool" where
  "numbered db \<longleftrightarrow>
     seq db = int (length (logs db)) \<and>
     map row_id (logs db) = map int [1..<Suc (length (logs db))]"

section \<open>Properties\<close>

subsection \<open>The dispatcher ignores the bot's own messages\<close>

text \<open>
  C4. A message whose author is the bot itself gets no reply and leaves the Chronicle as
  it was, whatever its text.
\<close>

theorem own_message_ignored:
  "user_id (author m) = user_id (client_user env) \<Longrightarrow> on_message env m db = (db, [])"
  by (simp add: on_message_def)

theorem own_message_ignored_witness:
  "user_id (author \<lparr>author = echo_bot, content = ''!log hello''\<rparr>) =
     user_id (client_user sample_env) \<and>
   on_message sample_env \<lparr>author = echo_bot, content = ''!log hello''\<rparr> one_entry =
     (one_entry, [])"
  using own_message_ignored [of "\<lparr>author = echo_bot, content = ''!log hello''\<rparr>" sample_env one_entry]
  by (simp add: sample_env_def)

subsection \<open>Prefixes and deliveries\<close>

lemma startswith_append: "startswith s p \<longleftrightarrow> (\<exists>t. s = p @ t)"
  unfolding startswith_def
  by (metis append_eq_conv_conj append_take_drop_id)

lemma recall_not_others:
  assumes "startswith s ''!recall''"
  shows "\<not> startswith s ''!ping''" "\<not> startswith s ''!scrape''"
    "\<not> startswith s ''!time''" "\<not> startswith s ''!log''"
proof -
  from assms obtain t where s: "s = ''!recall'' @ t"
    by (auto simp: startswith_append)
  show "\<not> startswith s ''!ping''" "\<not> startswith s ''!scrape''"
    "\<not> startswith s ''!time''" "\<not> startswith s ''!log''"
    by (simp_all add: s startswith_def)
qed

lemma log_not_others:
  assumes "startswith s ''!log''"
  shows "\<not> startswith s ''!ping''" "\<not> startswith s ''!scrape''" "\<not> startswith s ''!time''"
proof -
  from assms obtain t where s: "s = ''!log'' @ t"
    by (auto simp: startswith_append)
  show "\<not> startswith s ''!ping''" "\<not> startswith s ''!scrape''" "\<not> startswith s ''!time''"
    by (simp_all add: s startswith_def)
qed

lemma delivered_ok: "send_error env r = None \<Longrightarrow> delivered env r = [r]"
  by (simp add: delivered_def)

lemma delivered_cases: "delivered env r = [r] \<or> delivered env r = []"
  by (simp add: delivered_def split: option.splits)

lemma length_delivered: "length (delivered env r) \<le> 1"
  by (simp add: delivered_def split: option.splits)

lemma sample_delivered: "delivered sample_env r = [r]"
  by (simp add: delivered_def sample_env_def)

subsection \<open>A log command without a message\<close>

text \<open>
  C8. When the text after the first five characters of a log command is empty once
  stripped, all the handler does is send the usage error: the reply is the usage error
  (delivered unless the send itself raises, and then nothing else is sent), and the store
  is not touched: the Chronicle is the same value, whichever SQLite call would have
  failed. The same holds for the event as the dispatcher routes it.
\<close>

theorem empty_log_is_usage_error:
  "strip (drop 5 (content m)) = [] \<Longrightarrow>
   handle_log_command env m db = (db, delivered env log_usage) \<and>
   (send_error env log_usage = None \<longrightarrow> handle_log_command env m db = (db, [log_usage])) \<and>
   (user_id (author m) \<noteq> user_id (client_user env) \<and> startswith (content m) ''!log''
      \<longrightarrow> on_message env m db = (db, delivered env log_usage))"
  by (simp add: handle_log_command_def on_message_def log_not_others delivered_ok)

theorem empty_log_is_usage_error_witness:
  "strip (drop 5 (content \<lparr>author = bob, content = ''!log   ''\<rparr>)) = [] \<and>
   handle_log_command (sample_env\<lparr>db_fault := ConnectFails\<rparr>)
       \<lparr>author = bob, content = ''!log   ''\<rparr> one_entry = (one_entry, [log_usage]) \<and>
   on_message (sample_env\<lparr>db_fault := ConnectFails\<rparr>)
       \<lparr>author = bob, content = ''!log   ''\<rparr> one_entry = (one_entry, [log_usage])"
proof -
  have h: "strip (drop 5 (content \<lparr>author = bob, content = ''!log   ''\<rparr>)) = []"
    by (simp add: strip_def isspace_def)
  from empty_log_is_usage_error [OF h, of "sample_env\<lparr>db_fault := ConnectFails\<rparr>" one_entry] h
  show ?thesis
    by (simp add: sample_env_def bob_def echo_bot_def startswith_def delivered_def)
qed

subsection \<open>The limit of a recall\<close>

lemma py_int_nonneg: "py_int s = Inr v \<Longrightarrow> 0 \<le> v"
proof -
  have "0 \<le> a \<Longrightarrow> 0 \<le> foldl (\<lambda>a c. 10 * a + digit_value c) a s" for a
    by (induction s arbitrary: a) (auto simp: digit_value_def)
  then show "py_int s = Inr v \<Longrightarrow> 0 \<le> v"
    by (auto simp: py_int_def split: if_splits)
qed

text \<open>
  C6, as the code has it. Whenever the handler reaches the read, the limit it passes lies
  between 0 and 20: the code caps the limit at 20 and has no lower cap, so the digit 0
  gives the limit 0.
\<close>

theorem recall_limit_range: "recall_limit t = Inr n \<Longrightarrow> 0 \<le> n \<and> n \<le> 20"
  by (auto simp: recall_limit_def Let_def split: if_splits sum.splits dest: py_int_nonneg)

theorem recall_limit_range_witness:
  "recall_limit ''!recall 7'' = Inr 7 \<and> (0::int) \<le> 7 \<and> (7::int) \<le> 20"
proof -
  have h: "recall_limit ''!recall 7'' = Inr 7"
    by (simp add: recall_limit_def split_def isspace_def isdigit_def isdigit_char_def
        py_int_def isdecimal_char_def digit_value_def)
  from recall_limit_range [OF h] h show ?thesis by simp
qed

theorem recall_limit_zero_counterexample:
  "recall_limit ''!recall 0'' = Inr 0 \<and> \<not> (1 \<le> (0::int))"
  by (simp add: recall_limit_def split_def isspace_def isdigit_def isdigit_char_def
      py_int_def isdecimal_char_def digit_value_def)

text \<open>The two cases in which the limit is the one the command asks for: no second word
  that passes \<^verbatim>\<open>isdigit()\<close>, and a second word of decimal digits.\<close>

lemma recall_limit_default:
  "\<not> (1 < length (split t) \<and> isdigit (split t ! 1)) \<Longrightarrow> recall_limit t = Inr 5"
  by (auto simp: recall_limit_def Let_def)

lemma recall_limit_decimal:
  "1 < length (split t) \<Longrightarrow> split t ! 1 \<noteq> [] \<Longrightarrow> list_all isdecimal_char (split t ! 1) \<Longrightarrow>
   recall_limit t = Inr (min (foldl (\<lambda>a c. 10 * a + digit_value c) 0 (split t ! 1)) 20)"
proof -
  assume a: "1 < length (split t)" "split t ! 1 \<noteq> []" "list_all isdecimal_char (split t ! 1)"
  have "isdigit_char c" if "isdecimal_char c" for c
    using that by (simp add: isdigit_char_def isdecimal_char_def Let_def)
  with a(3) have "list_all isdigit_char (split t ! 1)"
    by (simp add: list_all_iff)
  with a show ?thesis
    by (simp add: recall_limit_def Let_def isdigit_def py_int_def)
qed

text \<open>
  C7, at the input where the code leaves it. The second word of \<^verbatim>\<open>!recall\<close> followed by
  a superscript two (U+00B2) passes \<^verbatim>\<open>isdigit()\<close>, \<^verbatim>\<open>int()\<close> raises
  \<^verbatim>\<open>ValueError\<close> on it, and the handler's \<^verbatim>\<open>except\<close> branch replies that the
  Chronicle could not be read: neither the default limit nor the parsed one is used.
\<close>

theorem recall_superscript_digit_fails:
  "isdigit [CHR 0xB2] \<and>
   py_int [CHR 0xB2] = Inl ValueError \<and>
   recall_limit (''!recall '' @ [CHR 0xB2]) = Inl ValueError \<and>
   on_message sample_env \<lparr>author = bob, content = ''!recall '' @ [CHR 0xB2]\<rparr> one_entry =
     (one_entry, [recall_failed])"
  by (simp add: on_message_def handle_recall_command_def recall_limit_def delivered_def
      sample_env_def bob_def echo_bot_def startswith_def split_def isspace_def isdigit_def
      isdigit_char_def py_int_def isdecimal_char_def)


subsection \<open>Recalling zero entries\<close>

lemma chronicle_recent_eq:
  "chronicle_recent f db limit =
     (if f = ConnectFails \<or> f = ExecuteFails then (db, Inl OperationalError)
      else (db, Inr (select_recent limit (logs db))))"
  by (cases f)
     (simp_all add: chronicle_recent_def connect_def execute_select_def close_def
        dropped_def view_def)

lemma recall_keeps_db: "fst (handle_recall_command env m db) = db"
  by (simp add: handle_recall_command_def chronicle_recent_eq split: sum.splits option.splits)

lemma select_recent_zero: "select_recent 0 rows = []"
  by (simp add: select_recent_def sql_limit_def)

text \<open>
  C10. For a recall whose second word is the digit 0 (as in \<^verbatim>\<open>!recall 0\<close>), the limit
  is 0, the read returns no row whatever the table holds, the Chronicle is left as it
  was, and the reply is \<^verbatim>\<open>The Chronicle is empty.\<close>. Only a failure of the connection
  or of the query, or a send of that reply that raises, leads to the \<^verbatim>\<open>except\<close>
  branch and its error reply.
\<close>

theorem recall_zero_reads_nothing:
  assumes "user_id (author m) \<noteq> user_id (client_user env)"
    and "startswith (content m) ''!recall''"
    and "1 < length (split (content m))"
    and "split (content m) ! 1 = ''0''"
  shows "recall_limit (content m) = Inr 0 \<and>
         select_recent 0 (logs db) = [] \<and>
         chronicle_recent (db_fault env) db 0 =
           (db, if db_fault env = ConnectFails \<or> db_fault env = ExecuteFails
                then Inl OperationalError else Inr []) \<and>
         fst (on_message env m db) = db \<and>
         snd (on_message env m db) =
           (if db_fault env = ConnectFails \<or> db_fault env = ExecuteFails then
              delivered env recall_failed
            else if send_error env (Text ''The Chronicle is empty.'') = None then
              [Text ''The Chronicle is empty.'']
            else delivered env recall_failed) \<and>
         ((\<forall>r. send_error env r = None) \<longrightarrow>
          snd (on_message env m db) =
            [if db_fault env = ConnectFails \<or> db_fault env = ExecuteFails then recall_failed
             else Text ''The Chronicle is empty.''])"
proof -
  have l: "recall_limit (content m) = Inr 0"
    using assms(3,4)
    by (simp add: recall_limit_def Let_def isdigit_def isdigit_char_def py_int_def
        isdecimal_char_def digit_value_def)
  have r: "on_message env m db = handle_recall_command env m db"
    using assms(1,2) by (simp add: on_message_def recall_not_others)
  have c: "chronicle_recent (db_fault env) db 0 =
           (db, if db_fault env = ConnectFails \<or> db_fault env = ExecuteFails
                then Inl OperationalError else Inr [])"
    by (simp add: chronicle_recent_eq select_recent_zero)
  have s: "snd (handle_recall_command env m db) =
           (if db_fault env = ConnectFails \<or> db_fault env = ExecuteFails then
              delivered env recall_failed
            else if send_error env (Text ''The Chronicle is empty.'') = None then
              [Text ''The Chronicle is empty.'']
            else delivered env recall_failed)"
    by (auto simp add: handle_recall_command_def l c split: option.splits)
  have "snd (handle_recall_command env m db) =
            [if db_fault env = ConnectFails \<or> db_fault env = ExecuteFails then recall_failed
             else Text ''The Chronicle is empty.'']"
    if "\<forall>r. send_error env r = None"
    using that by (simp add: s delivered_ok)
  with l r c s show ?thesis
    by (simp add: recall_keeps_db select_recent_zero)
qed

theorem recall_zero_reads_nothing_witness:
  "user_id (author \<lparr>author = bob, content = ''!recall 0''\<rparr>) \<noteq> user_id (client_user sample_env) \<and>
   startswith (content \<lparr>author = bob, content = ''!recall 0''\<rparr>) ''!recall'' \<and>
   split (content \<lparr>author = bob, content = ''!recall 0''\<rparr>) = [''!recall'', ''0''] \<and>
   logs one_entry \<noteq> [] \<and>
   on_message sample_env \<lparr>author = bob, content = ''!recall 0''\<rparr> one_entry =
     (one_entry, [Text ''The Chronicle is empty.''])"
proof -
  let ?m = "\<lparr>author = bob, content = ''!recall 0''\<rparr>"
  have h1: "user_id (author ?m) \<noteq> user_id (client_user sample_env)"
    by (simp add: sample_env_def bob_def echo_bot_def)
  have h2: "startswith (content ?m) ''!recall''"
    by (simp add: startswith_def)
  have sp: "split (content ?m) = [''!recall'', ''0'']"
    by (simp add: split_def isspace_def)
  have h3: "1 < length (split (content ?m))" and h4: "split (content ?m) ! 1 = ''0''"
    unfolding sp by simp_all
  have f: "db_fault sample_env = NoFault" "send_error sample_env = (\<lambda>r. None)"
    by (simp_all add: sample_env_def)
  from recall_zero_reads_nothing [OF h1 h2 h3 h4, of one_entry] h1 h2 sp show ?thesis
    by (simp add: f prod_eq_iff one_entry_def)
qed

subsection \<open>Replies per event\<close>

lemma log_replies:
  "length (snd (handle_log_command env m db)) \<le> 1 \<and>
   ((\<forall>r. send_error env r = None) \<longrightarrow> length (snd (handle_log_command env m db)) = 1)"
  using length_delivered [of env log_usage] length_delivered [of env log_failed]
  by (auto simp add: handle_log_command_def Let_def delivered_ok
      split: prod.splits sum.splits option.splits)

lemma recall_replies:
  "length (snd (handle_recall_command env m db)) \<le> 1 \<and>
   ((\<forall>r. send_error env r = None) \<longrightarrow> length (snd (handle_recall_command env m db)) = 1)"
  using length_delivered [of env recall_failed]
  by (auto simp add: handle_recall_command_def delivered_ok
      split: prod.splits sum.splits option.splits)

lemma scrape_replies:
  "length (handle_scrape_command env m) \<le> 2 \<and>
   ((\<forall>r. send_error env r = None) \<longrightarrow>
    length (handle_scrape_command env m) = (if length (split (content m)) < 2 then 1 else 2))"
proof -
  have le: "length (handle_scrape_command env m) \<le> 2"
    by (simp add: handle_scrape_command_def Let_def delivered_def split: sum.splits option.splits)
  have "length (handle_scrape_command env m) = (if length (split (content m)) < 2 then 1 else 2)"
    if "\<forall>r. send_error env r = None"
    using that by (simp add: handle_scrape_command_def Let_def delivered_ok split: sum.splits)
  with le show ?thesis
    by simp
qed

lemma time_replies:
  "length (handle_time_command env m) \<le> 2 \<and>
   ((\<forall>r. send_error env r = None) \<longrightarrow>
    length (handle_time_command env m) = (if length (split (content m)) < 2 then 1 else 2))"
proof -
  have le: "length (handle_time_command env m) \<le> 2"
    by (simp add: handle_time_command_def Let_def delivered_def split: sum.splits option.splits)
  have "length (handle_time_command env m) = (if length (split (content m)) < 2 then 1 else 2)"
    if "\<forall>r. send_error env r = None"
    using that by (simp add: handle_time_command_def Let_def delivered_ok split: sum.splits)
  with le show ?thesis
    by simp
qed

text \<open>When the progress notice of a scrape is refused, the \<^verbatim>\<open>except\<close> branch sends
  the error alone: at most one reply.\<close>

lemma scrape_notice_refused:
  "\<not> length (split (content m)) < 2 \<Longrightarrow>
   send_error env (Text (''Beginning reconnaissance on `'' @ split (content m) ! 1 @ ''`...''))
     = Some e \<Longrightarrow>
   handle_scrape_command env m = delivered env (scrape_error e)"
  by (simp add: handle_scrape_command_def Let_def)

text \<open>
  C5, as the code has it. For an event that is not the bot's own, the dispatcher takes
  the first branch whose prefix matches. No event gets more than two replies. When no
  send of the event raises, the number of replies is: one for a ping, a log and a
  recall; for a scrape and a time query, one (the usage error) when the argument is
  missing and two otherwise (the progress notice, then the report or the error); none
  when no prefix matches.
\<close>

theorem replies_per_event:
  assumes "user_id (author m) \<noteq> user_id (client_user env)"
  shows "length (snd (on_message env m db)) \<le> 2 \<and>
    ((\<forall>r. send_error env r = None) \<longrightarrow>
     length (snd (on_message env m db)) =
       (if startswith (content m) ''!ping'' then 1
        else if startswith (content m) ''!scrape'' \<or> startswith (content m) ''!time''
          then (if length (split (content m)) < 2 then 1 else 2)
        else if startswith (content m) ''!log'' \<or> startswith (content m) ''!recall'' then 1
        else 0))"
proof -
  have p: "length (delivered env r) \<le> 2" for r
    using length_delivered [of env r] by simp
  have l: "length (snd (handle_log_command env m db)) \<le> 2"
    using log_replies [of env m db] by simp
  have r: "length (snd (handle_recall_command env m db)) \<le> 2"
    using recall_replies [of env m db] by simp
  have le: "length (snd (on_message env m db)) \<le> 2"
    using p l r scrape_replies [of env m] time_replies [of env m]
    by (simp add: on_message_def)
  have "length (snd (on_message env m db)) =
       (if startswith (content m) ''!ping'' then 1
        else if startswith (content m) ''!scrape'' \<or> startswith (content m) ''!time''
          then (if length (split (content m)) < 2 then 1 else 2)
        else if startswith (content m) ''!log'' \<or> startswith (content m) ''!recall'' then 1
        else 0)"
    if a: "\<forall>r. send_error env r = None"
    using assms a log_replies [of env m db] recall_replies [of env m db]
      scrape_replies [of env m] time_replies [of env m]
    by (simp add: on_message_def delivered_ok)
  with le show ?thesis
    by simp
qed

theorem replies_per_event_witness:
  "user_id (author \<lparr>author = bob, content = ''!time UTC''\<rparr>) \<noteq>
     user_id (client_user sample_env) \<and>
   (\<forall>r. send_error sample_env r = None) \<and>
   length (snd (on_message sample_env \<lparr>author = bob, content = ''!time UTC''\<rparr> one_entry)) = 2"
proof -
  have h: "user_id (author \<lparr>author = bob, content = ''!time UTC''\<rparr>) \<noteq>
     user_id (client_user sample_env)"
    by (simp add: sample_env_def bob_def echo_bot_def)
  have s: "\<forall>r. send_error sample_env r = None"
    by (simp add: sample_env_def)
  from replies_per_event [OF h, of one_entry] h s show ?thesis
    by (simp add: startswith_def split_def isspace_def)
qed

theorem scrape_two_replies_counterexample:
  "on_message sample_env \<lparr>author = bob, content = ''!scrape http://example.com''\<rparr> one_entry =
     (one_entry,
      [Text ''Beginning reconnaissance on `http://example.com`...'',
       Embed \<lparr>embed_title = ''Reconnaissance Report'',
              embed_description = ''Target: `http://example.com`'',
              embed_color = Blue,
              embed_fields = [(''Page Title'', ''```Example Domain```'', False)],
              embed_footer = Some ''Report generated by Echo for bob''\<rparr>])"
  by (simp add: on_message_def handle_scrape_command_def scrape_report_def sample_env_def
      bob_def echo_bot_def startswith_def split_def isspace_def)


subsection \<open>The write is all or nothing\<close>

lemma chronicle_append_eq:
  "chronicle_append f db vals =
     (if f = NoFault \<and> max (seq db) (max_id (logs db)) < 9223372036854775807
      then (\<lparr>logs = logs db @ [next_row db vals],
             seq = max (seq db) (max_id (logs db)) + 1\<rparr>, Inr ())
      else (db, Inl OperationalError))"
  by (cases f)
     (auto simp add: chronicle_append_def connect_def execute_insert_def commit_def
        close_def dropped_def view_def next_row_def Let_def)

text \<open>
  C3. A write either returns normally, and then the file holds the old rows followed by
  the new entry, or raises, and then the file is the one it was. For the handler: the
  reply that the entry was recorded is delivered only with the entry in the file, and
  the file is either unchanged or extended by exactly that entry. (The failure reply
  does not tell the two apart: when the write succeeds and the send of the success reply
  raises, the \<^verbatim>\<open>except\<close> branch sends the failure reply with the entry written.)
\<close>

theorem append_persists_or_fails:
  "(case chronicle_append f db (ts, u, msg) of
      (db', Inr ok) \<Rightarrow>
        logs db' = logs db @
          [\<lparr>row_id = max (seq db) (max_id (logs db)) + 1, row_timestamp = ts,
            row_user = u, row_message = msg\<rparr>]
    | (db', Inl e) \<Rightarrow> db' = db) \<and>
   (case handle_log_command env m db of
      (db', out) \<Rightarrow>
        out = [log_recorded] \<and>
          logs db' = logs db @
            [\<lparr>row_id = max (seq db) (max_id (logs db)) + 1,
              row_timestamp = utcnow_isoformat env,
              row_user = user_str (author m),
              row_message = strip (drop 5 (content m))\<rparr>]
        \<or> out = delivered env log_failed \<and> db' = db
        \<or> out = delivered env log_failed \<and> send_error env log_recorded \<noteq> None \<and>
          logs db' = logs db @
            [\<lparr>row_id = max (seq db) (max_id (logs db)) + 1,
              row_timestamp = utcnow_isoformat env,
              row_user = user_str (author m),
              row_message = strip (drop 5 (content m))\<rparr>]
        \<or> out = delivered env log_usage \<and> db' = db)"
  by (cases f; cases "db_fault env")
     (auto simp add: chronicle_append_def connect_def execute_insert_def commit_def
        close_def dropped_def view_def handle_log_command_def Let_def
        split: option.splits)

theorem append_persists_or_fails_witness:
  "chronicle_append CommitFails one_entry
       (''2024-01-02T03:04:05.000006'', ''bob#0002'', ''hello'') =
     (one_entry, Inl OperationalError) \<and>
   handle_log_command sample_env \<lparr>author = bob, content = ''!log Server restarted''\<rparr>
       (initialize_database None) =
     (one_entry\<lparr>logs := [\<lparr>row_id = 1, row_timestamp = ''2024-01-02T03:04:05.000006'',
                            row_user = ''bob#0002'', row_message = ''Server restarted''\<rparr>]\<rparr>,
      [log_recorded])"
proof -
  have ne: "log_recorded \<noteq> log_failed" "log_recorded \<noteq> log_usage"
    by (simp_all add: log_recorded_def log_failed_def log_usage_def check_mark_def cross_mark_def)
  have a: "snd (chronicle_append CommitFails one_entry
       (''2024-01-02T03:04:05.000006'', ''bob#0002'', ''hello'')) = Inl OperationalError"
    by (simp add: chronicle_append_def connect_def execute_insert_def commit_def view_def
        one_entry_def max_id_def Let_def)
  have b: "snd (handle_log_command sample_env
       \<lparr>author = bob, content = ''!log Server restarted''\<rparr> (initialize_database None)) =
       [log_recorded]"
    by (simp add: handle_log_command_def chronicle_append_def connect_def execute_insert_def
        commit_def view_def sample_env_def initialize_database_def max_id_def strip_def
        isspace_def Let_def)
  have c: "seq (fst (handle_log_command sample_env
       \<lparr>author = bob, content = ''!log Server restarted''\<rparr> (initialize_database None))) = 1"
    by (simp add: handle_log_command_def chronicle_append_def connect_def execute_insert_def
        commit_def view_def close_def sample_env_def initialize_database_def max_id_def
        strip_def isspace_def Let_def)
  let ?m = "\<lparr>author = bob, content = ''!log Server restarted''\<rparr>"
  obtain d r where x: "chronicle_append CommitFails one_entry
       (''2024-01-02T03:04:05.000006'', ''bob#0002'', ''hello'') = (d, r)"
    by (cases "chronicle_append CommitFails one_entry
       (''2024-01-02T03:04:05.000006'', ''bob#0002'', ''hello'')")
  from a x have r: "r = Inl OperationalError" by simp
  from append_persists_or_fails [where f = CommitFails and db = one_entry
      and ts = "''2024-01-02T03:04:05.000006''" and u = "''bob#0002''" and msg = "''hello''"
      and env = sample_env and m = ?m] x r
  have 1: "d = one_entry" by simp
  obtain d2 out where y: "handle_log_command sample_env ?m (initialize_database None) = (d2, out)"
    by (cases "handle_log_command sample_env ?m (initialize_database None)")
  from b y have out: "out = [log_recorded]" by simp
  from c y have s2: "seq d2 = 1" by simp
  from append_persists_or_fails [where f = NoFault and db = "initialize_database None"
      and ts = "''''" and u = "''''" and msg = "''''" and env = sample_env and m = ?m] y out ne
    sample_delivered
  have "logs d2 = logs (initialize_database None) @
      [\<lparr>row_id = max (seq (initialize_database None)) (max_id (logs (initialize_database None))) + 1,
        row_timestamp = utcnow_isoformat sample_env,
        row_user = user_str (author ?m),
        row_message = strip (drop 5 (content ?m))\<rparr>]"
    by simp
  then have l2: "logs d2 = [\<lparr>row_id = 1, row_timestamp = ''2024-01-02T03:04:05.000006'',
       row_user = ''bob#0002'', row_message = ''Server restarted''\<rparr>]"
    by (simp add: initialize_database_def max_id_def sample_env_def bob_def strip_def isspace_def)
  from x r 1 y out s2 l2 show ?thesis
    by (simp add: one_entry_def)
qed

subsection \<open>Ids count the entries\<close>

lemma fold_max_le:
  "a \<le> b \<Longrightarrow> \<forall>r\<in>set rows. row_id r \<le> b \<Longrightarrow>
   fold (\<lambda>r a. max (row_id r) a) rows a \<le> (b::int)"
  by (induction rows arbitrary: a) auto

lemma numbered_max:
  assumes "numbered db"
  shows "max (seq db) (max_id (logs db)) = int (length (logs db))"
proof -
  have "\<forall>r\<in>set (logs db). row_id r \<le> int (length (logs db))"
  proof
    fix r
    assume "r \<in> set (logs db)"
    then have "row_id r \<in> set (map row_id (logs db))"
      by simp
    with assms have "row_id r \<in> set (map int [1..<Suc (length (logs db))])"
      by (simp add: numbered_def)
    then show "row_id r \<le> int (length (logs db))"
      by auto
  qed
  then have "max_id (logs db) \<le> int (length (logs db))"
    unfolding max_id_def by (intro fold_max_le) auto
  with assms show ?thesis
    by (simp add: numbered_def)
qed

lemma numbered_init: "numbered (initialize_database None)"
  by (simp add: numbered_def initialize_database_def)

lemma numbered_append: "numbered db \<Longrightarrow> numbered (fst (chronicle_append f db vals))"
  by (simp add: chronicle_append_eq numbered_max next_row_def) (simp add: numbered_def)

lemma numbered_ids_sorted: "numbered db \<Longrightarrow> sorted_wrt (<) (map row_id (logs db))"
  by (simp add: numbered_def sorted_wrt_map del: upt_Suc)

lemma handle_log_fst:
  "fst (handle_log_command env m db) =
     (if strip (drop 5 (content m)) = [] then db
      else fst (chronicle_append (db_fault env) db
                  (utcnow_isoformat env, user_str (author m), strip (drop 5 (content m)))))"
  by (simp add: handle_log_command_def Let_def split: prod.splits sum.splits option.splits)

lemma handle_log_db:
  "fst (handle_log_command env m db) = db \<or>
   (\<exists>f vals. fst (handle_log_command env m db) = fst (chronicle_append f db vals))"
  unfolding handle_log_fst by auto

lemma on_message_db:
  "fst (on_message env m db) = db \<or>
   (\<exists>f vals. fst (on_message env m db) = fst (chronicle_append f db vals))"
  using handle_log_db [of env m db]
  by (auto simp: on_message_def recall_keeps_db)

lemma append_extends: "\<exists>extra. logs (fst (chronicle_append f db vals)) = logs db @ extra"
  by (simp add: chronicle_append_eq)

lemma on_message_numbered: "numbered db \<Longrightarrow> numbered (fst (on_message env m db))"
  using on_message_db [of env m db] by (auto simp: numbered_append)

lemma on_message_extends: "\<exists>extra. logs (fst (on_message env m db)) = logs db @ extra"
  using on_message_db [of env m db] append_extends by auto

lemma run_numbered: "numbered db \<Longrightarrow> numbered (run evs db)"
  by (induction evs arbitrary: db) (auto simp: on_message_numbered)

lemma run_extends: "\<exists>extra. logs (run evs db) = logs db @ extra"
proof (induction evs arbitrary: db)
  case Nil
  show ?case by simp
next
  case (Cons ev evs)
  obtain e1 where e1: "logs (fst (on_message (fst ev) (snd ev) db)) = logs db @ e1"
    using on_message_extends by blast
  obtain e2 where "logs (run evs (fst (on_message (fst ev) (snd ev) db))) =
      logs (fst (on_message (fst ev) (snd ev) db)) @ e2"
    using Cons.IH by blast
  with e1 show ?case by simp
qed

lemma reachable_numbered: "numbered (run evs (initialize_database None))"
  by (simp add: run_numbered numbered_init)

lemma append_calls_numbered:
  "numbered db \<Longrightarrow> append_calls calls db = (db', rs) \<Longrightarrow>
   numbered db' \<and>
   length (logs db') = length (logs db) + length (filter (\<lambda>r. r = Inr ()) rs) \<and>
   take (length (logs db)) (logs db') = logs db"
proof (induction calls arbitrary: db db' rs)
  case Nil
  then show ?case by simp
next
  case (Cons call calls)
  obtain db1 r where a: "chronicle_append (fst call) db (snd call) = (db1, r)"
    by (cases "chronicle_append (fst call) db (snd call)")
  obtain db2 rs2 where b: "append_calls calls db1 = (db2, rs2)"
    by (cases "append_calls calls db1")
  from Cons.prems(2) a b have eq: "db' = db2" "rs = r # rs2"
    by simp_all
  have n1: "numbered db1"
    using numbered_append [OF Cons.prems(1), of "fst call" "snd call"] a by simp
  from Cons.IH [OF n1 b] have ih: "numbered db2"
    "length (logs db2) = length (logs db1) + length (filter (\<lambda>r. r = Inr ()) rs2)"
    "take (length (logs db1)) (logs db2) = logs db1"
    by simp_all
  have step: "(r = Inr () \<and> (\<exists>row. logs db1 = logs db @ [row])) \<or> (r \<noteq> Inr () \<and> db1 = db)"
    using a by (auto simp: chronicle_append_eq split: if_splits)
  from step show ?case
  proof
    assume "r = Inr () \<and> (\<exists>row. logs db1 = logs db @ [row])"
    then obtain row where r: "r = Inr ()" and l: "logs db1 = logs db @ [row]"
      by blast
    have "logs db2 = logs db1 @ drop (length (logs db1)) (logs db2)"
      using ih(3) append_take_drop_id [of "length (logs db1)" "logs db2"] by simp
    then have "logs db2 = logs db @ ([row] @ drop (length (logs db1)) (logs db2))"
      by (simp add: l)
    then have "take (length (logs db)) (logs db2) = logs db"
      by (metis append_eq_conv_conj)
    then show ?thesis
      using ih r l eq by simp
  next
    assume "r \<noteq> Inr () \<and> db1 = db"
    then show ?thesis
      using ih eq by simp
  qed
qed

text \<open>
  C2. Take any Chronicle the bot can reach from a fresh file, with \<open>k\<close> entries, and any
  batch of writes. The old entries stay in place, and the ids of the new entries are
  \<open>k + 1, k + 2, ...\<close> in the order of the writes, one for each write that returned
  normally: \<open>k + 1\<close> to \<open>k + N\<close> when all \<open>N\<close> did. In every reachable Chronicle the ids
  increase strictly in insertion order. (The handlers do not yield between connecting and
  closing, so the writes of concurrent events happen one after the other.)
\<close>

theorem append_ids_consecutive:
  "(case append_calls calls (run evs (initialize_database None)) of
      (db', rs) \<Rightarrow>
        take (length (logs (run evs (initialize_database None)))) (logs db') =
          logs (run evs (initialize_database None)) \<and>
        map row_id (drop (length (logs (run evs (initialize_database None)))) (logs db')) =
          map int [length (logs (run evs (initialize_database None))) + 1 ..<
                   length (logs (run evs (initialize_database None))) + 1
                     + length (filter (\<lambda>r. r = Inr ()) rs)]) \<and>
   sorted_wrt (<) (map row_id (logs (run evs (initialize_database None))))"
proof -
  let ?db = "run evs (initialize_database None)"
  let ?k = "length (logs ?db)"
  obtain db' rs where a: "append_calls calls ?db = (db', rs)"
    by (cases "append_calls calls ?db")
  from append_calls_numbered [OF reachable_numbered a]
  have n: "numbered db'"
    and len: "length (logs db') = ?k + length (filter (\<lambda>r. r = Inr ()) rs)"
    and pre: "take ?k (logs db') = logs ?db"
    by simp_all
  have "map row_id (drop ?k (logs db')) = drop ?k (map row_id (logs db'))"
    by (simp add: drop_map)
  also have "\<dots> = drop ?k (map int [1..<Suc (length (logs db'))])"
    using n by (simp add: numbered_def)
  also have "\<dots> = map int [?k + 1 ..< ?k + 1 + length (filter (\<lambda>r. r = Inr ()) rs)]"
    by (simp add: drop_map len del: upt_Suc)
  finally have ids: "map row_id (drop ?k (logs db')) =
      map int [?k + 1 ..< ?k + 1 + length (filter (\<lambda>r. r = Inr ()) rs)]" .
  show ?thesis
    using a pre ids numbered_ids_sorted [OF reachable_numbered, of evs] by simp
qed

theorem append_ids_consecutive_witness:
  "length (logs (run [(sample_env, \<lparr>author = bob, content = ''!log Server restarted''\<rparr>)]
      (initialize_database None))) = 1 \<and>
   snd (append_calls
      [(NoFault, ''2024-01-03T00:00:00'', ''bob#0002'', ''two''),
       (ExecuteFails, ''2024-01-03T00:00:01'', ''bob#0002'', ''lost''),
       (NoFault, ''2024-01-03T00:00:02'', ''bob#0002'', ''three'')]
      (run [(sample_env, \<lparr>author = bob, content = ''!log Server restarted''\<rparr>)]
        (initialize_database None))) = [Inr (), Inl OperationalError, Inr ()] \<and>
   map row_id (drop 1 (logs (fst (append_calls
      [(NoFault, ''2024-01-03T00:00:00'', ''bob#0002'', ''two''),
       (ExecuteFails, ''2024-01-03T00:00:01'', ''bob#0002'', ''lost''),
       (NoFault, ''2024-01-03T00:00:02'', ''bob#0002'', ''three'')]
      (run [(sample_env, \<lparr>author = bob, content = ''!log Server restarted''\<rparr>)]
        (initialize_database None)))))) = [2, 3]"
proof -
  let ?evs = "[(sample_env, \<lparr>author = bob, content = ''!log Server restarted''\<rparr>)]"
  let ?calls = "[(NoFault, ''2024-01-03T00:00:00'', ''bob#0002'', ''two''),
       (ExecuteFails, ''2024-01-03T00:00:01'', ''bob#0002'', ''lost''),
       (NoFault, ''2024-01-03T00:00:02'', ''bob#0002'', ''three'')]"
  have db: "run ?evs (initialize_database None) =
      \<lparr>logs = [\<lparr>row_id = 1, row_timestamp = ''2024-01-02T03:04:05.000006'',
                 row_user = ''bob#0002'', row_message = ''Server restarted''\<rparr>], seq = 1\<rparr>"
    by (simp add: on_message_def handle_log_command_def chronicle_append_eq next_row_def
        sample_env_def bob_def echo_bot_def startswith_def strip_def isspace_def
        initialize_database_def max_id_def)
  have k: "length (logs (run ?evs (initialize_database None))) = 1"
    unfolding db by simp
  have rs: "snd (append_calls ?calls (run ?evs (initialize_database None))) =
      [Inr (), Inl OperationalError, Inr ()]"
    unfolding db by (simp add: chronicle_append_eq next_row_def max_id_def)
  have u: "[(1::nat) + 1 ..< 1 + 1 + 2] = [2, 3]"
    by (simp add: upt_rec)
  from append_ids_consecutive [where calls = ?calls and evs = ?evs] k rs u show ?thesis
    unfolding db by (simp add: case_prod_beta)
qed


subsection \<open>The read returns the most recent entries\<close>

lemma sort_key_numbered:
  assumes "mset stored = mset rows" and "sorted_wrt (<) (map row_id rows)"
  shows "sort_key row_id stored = rows"
proof (rule properties_for_sort_key)
  show "mset rows = mset stored"
    using assms(1) by simp
  have "distinct (map row_id rows)"
    using assms(2) strict_sorted_iff by blast
  then have inj: "inj_on row_id (set rows)"
    by (simp add: distinct_map)
  have s: "set stored = set rows"
    using assms(1) by (metis set_mset_mset)
  show "filter (\<lambda>x. row_id k = row_id x) rows = filter (\<lambda>x. row_id k = row_id x) stored"
    if "k \<in> set rows" for k
  proof -
    have "filter (\<lambda>x. row_id k = row_id x) rows = filter ((=) k) rows"
      using inj that by (intro filter_cong) (auto dest: inj_onD)
    moreover have "filter (\<lambda>x. row_id k = row_id x) stored = filter ((=) k) stored"
      using inj that s by (intro filter_cong) (auto dest: inj_onD)
    moreover have "filter ((=) k) rows = filter ((=) k) stored"
      using assms(1) by (metis replicate_count_mset_eq_filter_eq)
    ultimately show ?thesis
      by simp
  qed
  show "sorted (map row_id rows)"
    using assms(2) strict_sorted_iff by blast
qed

lemma select_recent_sorted:
  assumes "0 \<le> n" and "mset stored = mset rows" and "sorted_wrt (<) (map row_id rows)"
  shows "select_recent n stored = map entry_of (take (nat n) (rev rows))"
  using assms
  by (simp add: select_recent_def sql_limit_def sort_key_numbered entry_of_def [abs_def])

lemma recent_chronological:
  assumes "0 \<le> n" and "mset stored = mset rows" and "sorted_wrt (<) (map row_id rows)"
  shows "rev (select_recent n stored) = drop (length rows - nat n) (map entry_of rows)"
  by (simp add: select_recent_sorted [OF assms] rev_map take_rev drop_map)

lemma fst_append_calls_Cons:
  "fst (append_calls (call # calls) db) =
     fst (append_calls calls (fst (chronicle_append (fst call) db (snd call))))"
  by (simp split: prod.splits)

lemma appends_all_succeed:
  "numbered db \<Longrightarrow> int (length (logs db) + length es) < 9223372036854775808 \<Longrightarrow>
   numbered (fst (append_calls (map (Pair NoFault) es) db)) \<and>
   map entry_of (logs (fst (append_calls (map (Pair NoFault) es) db))) =
     map entry_of (logs db) @ es"
proof (induction es arbitrary: db)
  case Nil
  then show ?case by simp
next
  case (Cons e es)
  let ?db1 = "fst (chronicle_append NoFault db e)"
  have n1: "numbered ?db1"
    using Cons.prems(1) by (rule numbered_append)
  have l1: "logs ?db1 = logs db @ [next_row db e]"
    using Cons.prems by (simp add: chronicle_append_eq numbered_max)
  have b: "int (length (logs ?db1) + length es) < 9223372036854775808"
    using Cons.prems(2) by (simp add: l1)
  have e: "entry_of (next_row db e) = e"
    by (simp add: entry_of_def next_row_def)
  from Cons.IH [OF n1 b] l1 e show ?case
    by (simp add: fst_append_calls_Cons del: append_calls.simps)
qed

text \<open>The reply lists the entries in the order the handler walks them: one field per
  row, with the message body between the code fences, unchanged.\<close>

lemma recall_fields_bodies:
  "recall_fields fmt rows = Inr fs \<Longrightarrow>
   map (\<lambda>f. fst (snd f)) fs = map (\<lambda>r. ''```'' @ snd (snd r) @ ''```'') rows"
proof (induction rows arbitrary: fs)
  case Nil
  then show ?case by simp
next
  case (Cons r rows)
  obtain t u msg where r: "r = (t, u, msg)"
    by (cases r)
  from Cons.prems obtain ft fs' where "fmt t = Inr ft" "recall_fields fmt rows = Inr fs'"
    "fs = (''Logged by `'' @ u @ ''` at `'' @ ft @ ''`'', ''```'' @ msg @ ''```'', False) # fs'"
    by (auto simp: r split: sum.splits)
  with Cons.IH [of fs'] show ?case
    by (simp add: r)
qed

text \<open>
  C1. Let the Chronicle be a fresh table to which the entries \<open>es\<close> were appended, in
  this order, and let \<open>st\<close> hold its rows in any storage order. For every \<open>n \<ge> 0\<close> the
  read (lines 109 to 115), when the connection and the query do not fail, returns
  \<open>min n m\<close> rows, where \<open>m\<close> is the number of entries: reversed, they are the last \<open>n\<close>
  of \<open>es\<close>, all of them when \<open>m < n\<close>, oldest first. The handler (lines 117 to 138) lists
  them in that order, oldest first: when the limit of the command is \<open>n > 0\<close>, the
  Chronicle is not empty, the timestamps can be formatted and the send does not raise,
  its reply is the embed whose fields are those of the last \<open>n\<close> entries in insertion
  order. (A table holds fewer than \<open>2^63\<close> rows.)
\<close>

theorem recall_most_recent:
  assumes "0 \<le> n" and "int (length es) < 9223372036854775808"
    and "mset (logs st) =
      mset (logs (fst (append_calls (map (Pair NoFault) es) (initialize_database None))))"
    and "db_fault env \<noteq> ConnectFails" and "db_fault env \<noteq> ExecuteFails"
  shows "(case chronicle_recent (db_fault env) st n of
            (st', Inr rows) \<Rightarrow>
              st' = st \<and> rev rows = drop (length es - nat n) es \<and>
              length rows = min (nat n) (length es)
          | (st', Inl e) \<Rightarrow> False) \<and>
         (recall_limit (content m) = Inr n \<and> 0 < n \<and> es \<noteq> [] \<and>
          recall_fields (strftime_utc env) (drop (length es - nat n) es) = Inr fs \<and>
          send_error env (recall_embed (min (nat n) (length es)) fs) = None
          \<longrightarrow>
          handle_recall_command env m st = (st, [recall_embed (min (nat n) (length es)) fs]) \<and>
          map (\<lambda>f. fst (snd f)) fs =
            map (\<lambda>e. ''```'' @ snd (snd e) @ ''```'') (drop (length es - nat n) es))"
proof -
  let ?db = "fst (append_calls (map (Pair NoFault) es) (initialize_database None))"
  let ?last = "drop (length es - nat n) es"
  have "int (length (logs (initialize_database None)) + length es) < 9223372036854775808"
    using assms(2) by (simp add: initialize_database_def)
  from appends_all_succeed [OF numbered_init this]
  have n: "numbered ?db" and es: "map entry_of (logs ?db) = es"
    by (simp_all add: initialize_database_def)
  have len: "length (logs ?db) = length es"
    using es by (metis length_map)
  have s: "sorted_wrt (<) (map row_id (logs ?db))"
    using n by (rule numbered_ids_sorted)
  have r: "rev (select_recent n (logs st)) = ?last"
    using recent_chronological [OF assms(1) assms(3) s] by (simp add: es len)
  have "length (select_recent n (logs st)) = length (rev (select_recent n (logs st)))"
    by simp
  also have "\<dots> = min (nat n) (length es)"
    unfolding r by auto
  finally have l: "length (select_recent n (logs st)) = min (nat n) (length es)" .
  have c: "chronicle_recent (db_fault env) st n = (st, Inr (select_recent n (logs st)))"
    using assms(4,5)
    by (cases "db_fault env")
       (simp_all add: chronicle_recent_def connect_def execute_select_def close_def view_def)
  have store: "(case chronicle_recent (db_fault env) st n of
            (st', Inr rows) \<Rightarrow>
              st' = st \<and> rev rows = ?last \<and> length rows = min (nat n) (length es)
          | (st', Inl e) \<Rightarrow> False)"
    by (simp add: c r l)
  have handler: "handle_recall_command env m st =
        (st, [recall_embed (min (nat n) (length es)) fs]) \<and>
      map (\<lambda>f. fst (snd f)) fs = map (\<lambda>e. ''```'' @ snd (snd e) @ ''```'') ?last"
    if h: "recall_limit (content m) = Inr n" "0 < n" "es \<noteq> []"
      "recall_fields (strftime_utc env) ?last = Inr fs"
      "send_error env (recall_embed (min (nat n) (length es)) fs) = None"
  proof -
    have "0 < min (nat n) (length es)"
      using h(2,3) by simp
    with l have ne: "select_recent n (logs st) \<noteq> []"
      by (metis length_greater_0_conv)
    have "handle_recall_command env m st = (st, [recall_embed (min (nat n) (length es)) fs])"
      using ne h(4,5) by (simp add: handle_recall_command_def h(1) c r l)
    with recall_fields_bodies [OF h(4)] show ?thesis
      by simp
  qed
  from store handler show ?thesis
    by blast
qed

lemma three_logs:
  "logs (fst (append_calls (map (Pair NoFault) three_entries) (initialize_database None))) =
     [\<lparr>row_id = 1, row_timestamp = ''2024-01-01T00:00:00'',
       row_user = ''bob#0002'', row_message = ''one''\<rparr>,
      \<lparr>row_id = 2, row_timestamp = ''2024-01-01T00:00:01'',
       row_user = ''amy#0003'', row_message = ''two''\<rparr>,
      \<lparr>row_id = 3, row_timestamp = ''2024-01-01T00:00:02'',
       row_user = ''bob#0002'', row_message = ''three''\<rparr>]"
  by (simp add: three_entries_def initialize_database_def chronicle_append_eq max_id_def
      next_row_def)

theorem recall_most_recent_witness:
  "(0::int) \<le> 2 \<and> int (length three_entries) < 9223372036854775808 \<and>
   mset (logs \<lparr>logs = shuffled_rows, seq = 3\<rparr>) =
     mset (logs (fst (append_calls (map (Pair NoFault) three_entries)
       (initialize_database None)))) \<and>
   chronicle_recent (db_fault sample_env) \<lparr>logs = shuffled_rows, seq = 3\<rparr> 2 =
     (\<lparr>logs = shuffled_rows, seq = 3\<rparr>,
      Inr [(''2024-01-01T00:00:02'', ''bob#0002'', ''three''),
           (''2024-01-01T00:00:01'', ''amy#0003'', ''two'')]) \<and>
   handle_recall_command sample_env \<lparr>author = bob, content = ''!recall 2''\<rparr>
       \<lparr>logs = shuffled_rows, seq = 3\<rparr> =
     (\<lparr>logs = shuffled_rows, seq = 3\<rparr>,
      [recall_embed 2
         [(''Logged by `amy#0003` at `2024-01-01 00:00:01 UTC`'', ''```two```'', False),
          (''Logged by `bob#0002` at `2024-01-01 00:00:02 UTC`'', ''```three```'', False)]])"
proof -
  let ?st = "\<lparr>logs = shuffled_rows, seq = 3\<rparr>"
  let ?m = "\<lparr>author = bob, content = ''!recall 2''\<rparr>"
  let ?fs = "[(''Logged by `amy#0003` at `2024-01-01 00:00:01 UTC`'', ''```two```'', False),
          (''Logged by `bob#0002` at `2024-01-01 00:00:02 UTC`'', ''```three```'', False)]"
  have h1: "(0::int) \<le> 2"
    by simp
  have h2: "int (length three_entries) < 9223372036854775808"
    by (simp add: three_entries_def)
  have h3: "mset (logs ?st) =
     mset (logs (fst (append_calls (map (Pair NoFault) three_entries)
       (initialize_database None))))"
    unfolding three_logs by (simp add: shuffled_rows_def)
  have h4: "db_fault sample_env \<noteq> ConnectFails" and h5: "db_fault sample_env \<noteq> ExecuteFails"
    by (simp_all add: sample_env_def)
  have g1: "recall_limit (content ?m) = Inr 2"
    by (simp add: recall_limit_def split_def isspace_def isdigit_def isdigit_char_def
        py_int_def isdecimal_char_def digit_value_def)
  have g2: "recall_fields (strftime_utc sample_env)
      (drop (length three_entries - nat 2) three_entries) = Inr ?fs"
    by (simp add: three_entries_def sample_env_def)
  have g3: "send_error sample_env (recall_embed (min (nat 2) (length three_entries)) ?fs) = None"
    by (simp add: sample_env_def)
  have g4: "three_entries \<noteq> []"
    by (simp add: three_entries_def)
  have P: "recall_limit (content ?m) = Inr 2 \<and> 0 < (2::int) \<and> three_entries \<noteq> [] \<and>
      recall_fields (strftime_utc sample_env)
        (drop (length three_entries - nat 2) three_entries) = Inr ?fs \<and>
      send_error sample_env (recall_embed (min (nat 2) (length three_entries)) ?fs) = None"
    using g1 g2 g3 g4 by simp
  note T = recall_most_recent [OF h1 h2 h3 h4 h5, of ?m ?fs]
  note b0 = T [THEN conjunct2, THEN mp, OF P, THEN conjunct1]
  have cr: "chronicle_recent (db_fault sample_env) ?st 2 =
      (?st, Inr [(''2024-01-01T00:00:02'', ''bob#0002'', ''three''),
                 (''2024-01-01T00:00:01'', ''amy#0003'', ''two'')])"
    by (simp add: chronicle_recent_def connect_def execute_select_def close_def view_def
        select_recent_def sql_limit_def shuffled_rows_def sample_env_def)
  have k: "min (nat 2) (length three_entries) = 2"
    by (simp add: three_entries_def)
  from b0 [unfolded k]
  have b: "handle_recall_command sample_env ?m ?st = (?st, [recall_embed 2 ?fs])" .
  from cr b h2 h3 show ?thesis
    by simp
qed

subsection \<open>An entry is read back as it was written\<close>

text \<open>
  C9. Take a reachable Chronicle with \<open>k\<close> entries, a write of \<open>(ts, u, msg)\<close> that
  returns normally, and any events after it, leaving \<open>m\<close> entries. Whenever a read with
  limit \<open>n \<ge> 0\<close> reaches back to that entry (\<open>m - k - 1 < n\<close>), the result holds it, at
  position \<open>m - k - 1\<close> counted from the most recent, and its timestamp, user and message
  are the values written, unchanged.
\<close>

theorem appended_entry_read_back:
  assumes "chronicle_append f (run evs (initialize_database None)) (ts, u, msg) = (db1, Inr ())"
    and "0 \<le> n"
    and "length (logs (run later db1)) - Suc (length (logs (run evs (initialize_database None))))
           < nat n"
  shows "length (logs (run later db1)) - Suc (length (logs (run evs (initialize_database None))))
           < length (select_recent n (logs (run later db1))) \<and>
         select_recent n (logs (run later db1)) !
           (length (logs (run later db1)) - Suc (length (logs (run evs (initialize_database None)))))
           = (ts, u, msg)"
proof -
  let ?db0 = "run evs (initialize_database None)"
  let ?db2 = "run later db1"
  let ?k = "length (logs ?db0)"
  let ?m = "length (logs ?db2)"
  have n0: "numbered ?db0"
    by (rule reachable_numbered)
  have db1: "db1 = fst (chronicle_append f ?db0 (ts, u, msg))"
    using assms(1) by simp
  have n1: "numbered db1"
    unfolding db1 using n0 by (rule numbered_append)
  have n2: "numbered ?db2"
    using n1 by (rule run_numbered)
  obtain row where l1: "logs db1 = logs ?db0 @ [row]" and row: "entry_of row = (ts, u, msg)"
    using assms(1)
    by (auto simp: chronicle_append_eq entry_of_def next_row_def split: if_splits)
  obtain extra where l2: "logs ?db2 = logs db1 @ extra"
    using run_extends by blast
  have at: "logs ?db2 ! ?k = row"
    by (simp add: l2 l1)
  have km: "?k < ?m"
    by (simp add: l2 l1)
  have sel: "select_recent n (logs ?db2) = map entry_of (take (nat n) (rev (logs ?db2)))"
    using assms(2) numbered_ids_sorted [OF n2] by (intro select_recent_sorted) simp_all
  have j: "?m - Suc ?k < length (take (nat n) (rev (logs ?db2)))"
    using assms(3) km by simp
  have "take (nat n) (rev (logs ?db2)) ! (?m - Suc ?k) = rev (logs ?db2) ! (?m - Suc ?k)"
    using assms(3) by simp
  also have "\<dots> = logs ?db2 ! ?k"
    using km by (simp add: rev_nth)
  finally have "take (nat n) (rev (logs ?db2)) ! (?m - Suc ?k) = row"
    using at by simp
  with j show ?thesis
    by (simp add: sel row)
qed

theorem appended_entry_read_back_witness:
  "chronicle_append NoFault (run [] (initialize_database None))
      (''2024-01-01T00:00:00'', ''alice'', ''hello'') =
     (one_entry\<lparr>logs := [\<lparr>row_id = 1, row_timestamp = ''2024-01-01T00:00:00'',
                            row_user = ''alice'', row_message = ''hello''\<rparr>]\<rparr>, Inr ()) \<and>
   select_recent 5
     (logs (run [(sample_env, \<lparr>author = bob, content = ''!log Server restarted''\<rparr>)]
        (one_entry\<lparr>logs := [\<lparr>row_id = 1, row_timestamp = ''2024-01-01T00:00:00'',
                               row_user = ''alice'', row_message = ''hello''\<rparr>]\<rparr>))) ! 1 =
     (''2024-01-01T00:00:00'', ''alice'', ''hello'')"
proof -
  let ?db1 = "one_entry\<lparr>logs := [\<lparr>row_id = 1, row_timestamp = ''2024-01-01T00:00:00'',
                            row_user = ''alice'', row_message = ''hello''\<rparr>]\<rparr>"
  let ?later = "[(sample_env, \<lparr>author = bob, content = ''!log Server restarted''\<rparr>)]"
  have h1: "chronicle_append NoFault (run [] (initialize_database None))
      (''2024-01-01T00:00:00'', ''alice'', ''hello'') = (?db1, Inr ())"
    by (simp add: chronicle_append_eq next_row_def initialize_database_def max_id_def
        one_entry_def)
  have h2: "(0::int) \<le> 5"
    by simp
  have m: "length (logs (run ?later ?db1)) = 2"
    by (simp add: on_message_def handle_log_command_def chronicle_append_eq next_row_def
        sample_env_def bob_def echo_bot_def startswith_def strip_def isspace_def
        one_entry_def max_id_def)
  have k: "length (logs (run [] (initialize_database None))) = 0"
    by (simp add: initialize_database_def)
  have h3: "length (logs (run ?later ?db1)) - Suc (length (logs (run [] (initialize_database None))))
      < nat 5"
    unfolding m k by simp
  from appended_entry_read_back [OF h1 h2 h3] h1 show ?thesis
    unfolding m k by simp
qed


end
